theory Spec2Isabelle
  imports
    Main
    "HOL-Library.Sublist"
    "HOL-Library.Char_ord"
    "HOL-Library.List_Lexorder"
    "HOL-Library.Product_Lexorder"
begin

section \<open>Strings\<close>

text \<open>
  A Python \<open>str\<close> is modelled as a \<open>string\<close>; a \<open>char\<close> stands for the code point
  of the same number, so the model covers the strings whose code points are below 256
  (the pattern \<open>capitals\<close> of \<open>srctok.py\<close> names no code point beyond that range).
  The character classes below are Python 3's classes for \<open>str\<close> patterns on that range.
\<close>

definition code :: "char \<Rightarrow> nat" where
  "code c = of_char c"

definition is_digit :: "char \<Rightarrow> bool" where
  \<comment> \<open>\<open>\d\<close>, and \<open>[0-9]\<close>\<close>
  "is_digit c \<longleftrightarrow> 48 \<le> code c \<and> code c \<le> 57"

definition is_space :: "char \<Rightarrow> bool" where
  \<comment> \<open>\<open>\s\<close>, and the characters \<open>str.strip()\<close> removes\<close>
  "is_space c \<longleftrightarrow> (9 \<le> code c \<and> code c \<le> 13) \<or> (28 \<le> code c \<and> code c \<le> 32)
     \<or> code c = 133 \<or> code c = 160"

definition is_az :: "char \<Rightarrow> bool" where
  \<comment> \<open>\<open>[a-z]\<close>\<close>
  "is_az c \<longleftrightarrow> 97 \<le> code c \<and> code c \<le> 122"

definition is_AZ :: "char \<Rightarrow> bool" where
  \<comment> \<open>\<open>[A-Z]\<close>\<close>
  "is_AZ c \<longleftrightarrow> 65 \<le> code c \<and> code c \<le> 90"

definition isupper :: "char \<Rightarrow> bool" where
  \<comment> \<open>\<open>str.isupper()\<close> of a one-character string\<close>
  "isupper c \<longleftrightarrow> is_AZ c \<or> (192 \<le> code c \<and> code c \<le> 222 \<and> code c \<noteq> 215)"

definition lower_char :: "char \<Rightarrow> char" where
  "lower_char c = (if isupper c then char_of (code c + 32) else c)"

definition lower :: "string \<Rightarrow> string" where
  \<comment> \<open>\<open>str.lower()\<close>\<close>
  "lower s = map lower_char s"

definition strip :: "string \<Rightarrow> string" where
  \<comment> \<open>\<open>str.strip()\<close>\<close>
  "strip s = rev (dropWhile is_space (rev (dropWhile is_space s)))"

definition startswith :: "string \<Rightarrow> string \<Rightarrow> bool" where
  \<comment> \<open>\<open>s.startswith(p)\<close>\<close>
  "startswith s p \<longleftrightarrow> prefix p s"

fun find :: "string \<Rightarrow> string \<Rightarrow> nat option" where
  \<comment> \<open>\<open>s.find(sub)\<close>: the index of the first occurrence, \<open>None\<close> for Python's \<open>-1\<close>\<close>
  "find [] sub = (if sub = [] then Some 0 else None)"
| "find (x # xs) sub =
     (if prefix sub (x # xs) then Some 0 else map_option Suc (find xs sub))"

fun replace :: "string \<Rightarrow> string \<Rightarrow> string \<Rightarrow> string" where
  \<comment> \<open>\<open>s.replace(old, new)\<close> for a non-empty \<open>old\<close>: every occurrence, left to right,
      without overlap. The first equation skips \<open>n\<close> characters of a found occurrence.\<close>
  "replace [] old new = []"
| "replace (x # xs) old new =
     (if old \<noteq> [] \<and> prefix old (x # xs)
      then new @ replace (drop (length old - 1) xs) old new
      else x # replace xs old new)"

fun split_char :: "string \<Rightarrow> char \<Rightarrow> string list" where
  \<comment> \<open>\<open>s.split(c)\<close> for a one-character separator\<close>
  "split_char [] c = [[]]"
| "split_char (x # xs) c =
     (if x = c then [] # split_char xs c
      else (case split_char xs c of [] \<Rightarrow> [[x]] | p # ps \<Rightarrow> (x # p) # ps))"

section \<open>Regular expressions with Python's backtracking order\<close>

datatype grp = Ga | Gy | Gp

type_synonym caps = "grp \<Rightarrow> string option"

text \<open>
  A matcher state is the text before the position (reversed), the text from the
  position on, and the groups captured so far.
\<close>

type_synonym mstate = "string \<times> string \<times> caps"

datatype rx =
    Eps
  | Cls "char \<Rightarrow> bool"
  | Star "char \<Rightarrow> bool"
  | Seq rx rx
  | Alt rx rx
  | Opt rx
  | Grp grp rx
  | Bos
  | Eos
  | NotBehind "char \<Rightarrow> bool"

fun star_results :: "(char \<Rightarrow> bool) \<Rightarrow> string \<Rightarrow> string \<Rightarrow> caps \<Rightarrow> mstate list" where
  \<comment> \<open>greedy: the longest run first, then each shorter one\<close>
  "star_results P b [] c = [(b, [], c)]"
| "star_results P b (x # xs) c =
     (if P x then star_results P (x # b) xs c @ [(b, x # xs, c)] else [(b, x # xs, c)])"

fun rmatch :: "rx \<Rightarrow> mstate \<Rightarrow> mstate list" where
  \<comment> \<open>every way the expression matches at the position, in the order a backtracking
      matcher tries them\<close>
  "rmatch Eps st = [st]"
| "rmatch (Cls P) (b, rest, c) =
     (case rest of [] \<Rightarrow> [] | x # xs \<Rightarrow> if P x then [(x # b, xs, c)] else [])"
| "rmatch (Star P) (b, rest, c) = star_results P b rest c"
| "rmatch (Seq r1 r2) st = concat (map (rmatch r2) (rmatch r1 st))"
| "rmatch (Alt r1 r2) st = rmatch r1 st @ rmatch r2 st"
| "rmatch (Opt r) st = rmatch r st @ [st]"
| "rmatch (Grp g r) (b, rest, c) =
     map (\<lambda>(b', rest', c'). (b', rest', c'(g := Some (take (length rest - length rest') rest))))
       (rmatch r (b, rest, c))"
| "rmatch Bos (b, rest, c) = (if b = [] then [(b, rest, c)] else [])"
| "rmatch Eos (b, rest, c) =
     (if rest = [] \<or> rest = [CHR 0x0A] then [(b, rest, c)] else [])"
| "rmatch (NotBehind P) (b, rest, c) =
     (case b of [] \<Rightarrow> [(b, rest, c)] | x # _ \<Rightarrow> if P x then [] else [(b, rest, c)])"

definition no_caps :: caps where
  "no_caps = (\<lambda>_. None)"

definition re_match :: "rx \<Rightarrow> string \<Rightarrow> caps option" where
  \<comment> \<open>\<open>pattern.match(s)\<close>: a match at the start of the string\<close>
  "re_match r s = (case rmatch r ([], s, no_caps) of [] \<Rightarrow> None | (_, _, c) # _ \<Rightarrow> Some c)"

fun search_from :: "rx \<Rightarrow> string \<Rightarrow> string \<Rightarrow> caps option" where
  "search_from r b [] = (case rmatch r (b, [], no_caps) of [] \<Rightarrow> None | (_, _, c) # _ \<Rightarrow> Some c)"
| "search_from r b (x # xs) =
     (case rmatch r (b, x # xs, no_caps) of
        [] \<Rightarrow> search_from r (x # b) xs
      | (_, _, c) # _ \<Rightarrow> Some c)"

definition re_search :: "rx \<Rightarrow> string \<Rightarrow> caps option" where
  \<comment> \<open>\<open>pattern.search(s)\<close>: the first match at the leftmost position that has one\<close>
  "re_search r s = search_from r [] s"

definition groups :: "caps \<Rightarrow> string option \<times> string option \<times> string option" where
  \<comment> \<open>\<open>m.groups()\<close> of the three patterns below, whose groups are a, y, p in this order\<close>
  "groups c = (c Ga, c Gy, c Gp)"

definition Plus :: "(char \<Rightarrow> bool) \<Rightarrow> rx" where
  "Plus P = Seq (Cls P) (Star P)"

definition Seqs :: "rx list \<Rightarrow> rx" where
  "Seqs rs = foldr Seq rs Eps"

definition Lit :: "string \<Rightarrow> rx" where
  "Lit s = Seqs (map (\<lambda>ch. Cls (\<lambda>c. c = ch)) s)"

definition Dot :: rx where
  "Dot = Cls (\<lambda>c. c \<noteq> CHR 0x0A)"

section \<open>srctok.py: the patterns\<close>

definition repageonly :: rx where
  \<comment> \<open>\<open>[\d+\;\s\-etseqpassim\.]+$\<close>\<close>
  "repageonly = Seq (Plus (\<lambda>c. is_digit c \<or> is_space c \<or> c \<in> set ''+;-etseqpassim.'')) Eos"

definition pg_class :: "char \<Rightarrow> bool" where
  \<comment> \<open>\<open>[\d\,\s\-]\<close>\<close>
  "pg_class c \<longleftrightarrow> is_digit c \<or> c = CHR '','' \<or> is_space c \<or> c = CHR ''-''"

definition pg :: rx where
  \<comment> \<open>\<open>(?:\:\s*(?P<p>[\d\,\s\-]+))?\<close>\<close>
  "pg = Opt (Seqs [Lit '':'', Star is_space, Grp Gp (Plus pg_class)])"

definition year :: rx where
  \<comment> \<open>\<open>(?:\d\d\d\d|no date|n.d.|[Nn][Dd])\<close>\<close>
  "year = Alt (Seqs [Cls is_digit, Cls is_digit, Cls is_digit, Cls is_digit])
         (Alt (Lit ''no date'')
         (Alt (Seqs [Lit ''n'', Dot, Lit ''d'', Dot])
              (Seqs [Cls (\<lambda>c. c \<in> set ''Nn''), Cls (\<lambda>c. c \<in> set ''Dd'')])))"

definition refullsrc :: rx where
  \<comment> \<open>\<open>^(?P<a>[^,]+)\,[^\(\d]+[\s\(](?P<y>)\s*\<close> + pg + \<open>\)?\<close>\<close>
  "refullsrc = Seqs [Bos, Grp Ga (Plus (\<lambda>c. c \<noteq> CHR '','')), Lit '','',
     Plus (\<lambda>c. c \<noteq> CHR ''('' \<and> \<not> is_digit c), Cls (\<lambda>c. is_space c \<or> c = CHR ''(''),
     Grp Gy Eps, Star is_space, pg, Opt (Lit '')'')]"

definition capitals :: "char \<Rightarrow> bool" where
  \<comment> \<open>\<open>'\<Aring>A-Z\x8e\x8f\x99\x9a'\<close> inside a character class\<close>
  "capitals c \<longleftrightarrow> code c = 197 \<or> is_AZ c \<or> code c \<in> {142, 143, 153, 154}"

definition resrc :: rx where
  \<comment> \<open>\<open>(?P<a>(?<![^\s\(])[\<close> + capitals + \<open>vd][a-z]*\D*[^\d\,\.])\.?\s\(?(?P<y>\<close> + year
      + \<open>)\<close> + pg + \<open>\)?\<close>\<close>
  "resrc = Seqs [
     Grp Ga (Seqs [NotBehind (\<lambda>c. \<not> (is_space c \<or> c = CHR ''('')),
                   Cls (\<lambda>c. capitals c \<or> c = CHR ''v'' \<or> c = CHR ''d''),
                   Star is_az, Star (\<lambda>c. \<not> is_digit c),
                   Cls (\<lambda>c. \<not> (is_digit c \<or> c = CHR '','' \<or> c = CHR ''.''))]),
     Opt (Lit ''.''), Cls is_space, Opt (Lit ''(''), Grp Gy year, pg, Opt (Lit '')'')]"

definition altrefullsrc :: rx where
  \<comment> \<open>\<open>^(?P<a>[A-Z][a-zA-Z&]+)(?P<y>[0-9]{4}),\s+p\.\s*(?P<p>[\d,\s\-]+(?:ff?\.)?)$\<close>\<close>
  "altrefullsrc = Seqs [Bos,
     Grp Ga (Seq (Cls is_AZ) (Plus (\<lambda>c. is_az c \<or> is_AZ c \<or> c = CHR ''&''))),
     Grp Gy (Seqs [Cls is_digit, Cls is_digit, Cls is_digit, Cls is_digit]),
     Lit '','', Plus is_space, Lit ''p'', Lit ''.'', Star is_space,
     Grp Gp (Seq (Plus pg_class) (Opt (Seqs [Lit ''f'', Opt (Lit ''f''), Lit ''.'']))),
     Eos]"

section \<open>srctok.py: the tokenizer \<open>iter_ayps\<close>\<close>

type_synonym ayp = "string \<times> string \<times> string option \<times> string option"

definition author_text :: "ayp \<Rightarrow> string" where
  "author_text f = fst f"

definition year_text :: "ayp \<Rightarrow> string" where
  "year_text f = fst (snd f)"

definition pages :: "ayp \<Rightarrow> string option" where
  "pages f = fst (snd (snd f))"

definition title_hint :: "ayp \<Rightarrow> string option" where
  "title_hint f = snd (snd (snd f))"

definition the_str :: "string option \<Rightarrow> string" where
  \<comment> \<open>the string of a group that took part in the match; also Python's \<open>v or ''\<close>\<close>
  "the_str v = (case v of None \<Rightarrow> [] | Some s \<Rightarrow> s)"

definition truthy :: "string option \<Rightarrow> bool" where
  \<comment> \<open>Python's truth value of a string or \<open>None\<close>\<close>
  "truthy v \<longleftrightarrow> (case v of None \<Rightarrow> False | Some s \<Rightarrow> s \<noteq> [])"

definition first_match :: "string \<Rightarrow> (bool \<times> caps) option" where
  \<comment> \<open>lines 50 to 57: the three patterns in order; the flag is \<open>condensed\<close>\<close>
  "first_match x =
     (case re_search refullsrc x of Some m \<Rightarrow> Some (False, m)
      | None \<Rightarrow>
     (case re_search resrc x of Some m \<Rightarrow> Some (False, m)
      | None \<Rightarrow>
     (case re_search altrefullsrc x of Some m \<Rightarrow> Some (True, m)
      | None \<Rightarrow> None)))"

definition segment_match :: "string \<Rightarrow> (string \<times> string \<times> string option) option" where
  \<comment> \<open>lines 50 to 61: \<open>a, y, p\<close> after line 61, for a segment that matched\<close>
  "segment_match x =
     (case first_match x of
        None \<Rightarrow> None
      | Some (condensed, m) \<Rightarrow>
          (case groups m of (a, y, p) \<Rightarrow>
             Some (if condensed then replace (the_str a) ''&'' '' and '' else the_str a,
                   the_str y, p)))"

definition iter_ayps_body :: "string \<Rightarrow> string option \<Rightarrow> ayp option \<times> string option" where
  \<comment> \<open>lines 50 to 66 for the stripped segment \<open>x\<close>: the fragment yielded, if any, and
      the new value of \<open>word_from_title\<close>\<close>
  "iter_ayps_body x word_from_title =
     (case segment_match x of
        None \<Rightarrow> (None, word_from_title)
      | Some (a, y, p) \<Rightarrow>
          let p' = (if truthy p then map_option strip p else p)
          in (case find a ''_'' of
                None \<Rightarrow> (Some (a, y, p', word_from_title), word_from_title)
              | Some wft \<Rightarrow>
                  let w = Some (lower (drop (wft + 1) a))
                  in (Some (take wft a, y, p', w), w)))"

definition is_pc :: "string \<Rightarrow> bool" where
  \<comment> \<open>the condition of line 47\<close>
  "is_pc x \<longleftrightarrow> find x ''p.c.'' \<noteq> None \<and> startswith (strip x) ''pc''"

fun iter_ayps_loop :: "string list \<Rightarrow> string option \<Rightarrow> ayp list" where
  "iter_ayps_loop [] word_from_title = []"
| "iter_ayps_loop (x # xs) word_from_title =
     (if is_pc x
      then iter_ayps_loop xs word_from_title
      else (case iter_ayps_body (strip x) word_from_title of
              (None, w) \<Rightarrow> iter_ayps_loop xs w
            | (Some f, w) \<Rightarrow> f # iter_ayps_loop xs w))"

definition segments :: "string \<Rightarrow> string list" where
  \<comment> \<open>\<open>s.replace("), ", "); ").split(";")\<close>\<close>
  "segments s = split_char (replace s ''), '' ''); '') CHR '';''"

definition iter_ayps :: "string \<Rightarrow> string option \<Rightarrow> ayp list" where
  "iter_ayps s word_from_title = iter_ayps_loop (segments s) word_from_title"

section \<open>\<open>re.split\<close>\<close>

definition match_len :: "rx \<Rightarrow> string \<Rightarrow> string \<Rightarrow> nat option" where
  \<comment> \<open>the number of characters the first match at the position consumes\<close>
  "match_len r b rest =
     (case rmatch r (b, rest, no_caps) of [] \<Rightarrow> None
      | (_, rest', _) # _ \<Rightarrow> Some (length rest - length rest'))"

fun split_from :: "rx \<Rightarrow> string \<Rightarrow> string \<Rightarrow> string \<Rightarrow> nat \<Rightarrow> string list" where
  \<comment> \<open>\<open>cur\<close> is the piece being collected (reversed); a positive last argument counts the
      characters of a found separator still to be skipped. The patterns split with here
      (\<open>respa\<close>, \<open>resau\<close>) match no empty string; an empty match splits nothing.\<close>
  "split_from r b [] cur n = [rev cur]"
| "split_from r b (x # xs) cur (Suc n) = split_from r (x # b) xs cur n"
| "split_from r b (x # xs) cur 0 =
     (case match_len r b (x # xs) of
        Some (Suc n) \<Rightarrow> rev cur # split_from r (x # b) xs [] n
      | _ \<Rightarrow> split_from r (x # b) xs (x # cur) 0)"

definition re_split :: "rx \<Rightarrow> string \<Rightarrow> string list" where
  \<comment> \<open>\<open>pattern.split(s)\<close>\<close>
  "re_split r s = split_from r [] s [] 0"

section \<open>srctok.py: the author matcher\<close>

datatype py_error = KeyError | IndexError | ValueError

text \<open>
  The module \<open>pygrambank.bib\<close> and \<open>clldutils.misc.slug\<close> are not part of the sources at
  hand. What \<open>srctok.py\<close> uses of them is a parameter of the model: the name parser
  \<open>bib.pauthor\<close> (of its records only the field \<open>lastname\<close> is read), \<open>bib.hhtype\<close>, the
  table \<open>bib.hhtype_to_n\<close>, \<open>bib.lgcodestr\<close>, \<open>bib.iter_authors\<close>, and \<open>slug\<close> as
  \<open>undiacritic\<close> calls it (\<open>lowercase=False, remove_whitespace=False\<close>).
\<close>

record author =
  lastname :: string

type_synonym fields = "string \<rightharpoonup> string"

record env =
  pauthor :: "string \<Rightarrow> author list"
  hhtype :: "fields \<Rightarrow> string list"
  hhtype_to_n :: "string \<rightharpoonup> int"
  lgcodestr :: "string \<Rightarrow> string list"
  iter_authors :: "string \<Rightarrow> string list"
  slug :: "string \<Rightarrow> string"

definition undiacritic :: "env \<Rightarrow> string \<Rightarrow> string" where
  "undiacritic E s = slug E s"

definition devon :: "string list" where
  "devon = [''De'', ''Da'', ''Van'', ''Von'', ''Van den'', ''Van der'', ''Von der'']"

definition respa :: rx where
  \<comment> \<open>\<open>[\s\,\,\.\-]+\<close>\<close>
  "respa = Plus (\<lambda>c. is_space c \<or> c = CHR '','' \<or> c = CHR ''.'' \<or> c = CHR ''-'')"

definition eligible :: "string \<Rightarrow> bool" where
  \<comment> \<open>\<open>x.strip() and x[0].isupper() and x not in devon\<close>\<close>
  "eligible x \<longleftrightarrow>
     strip x \<noteq> [] \<and> (case x of [] \<Rightarrow> False | c # _ \<Rightarrow> isupper c) \<and> x \<notin> set devon"

definition firsttoken :: "string \<Rightarrow> string" where
  \<comment> \<open>\<open>([x for x in respa.split(ca) if ...] + [""])[0]\<close>\<close>
  "firsttoken ca = (case filter eligible (re_split respa ca) @ [[]] of [] \<Rightarrow> [] | t # _ \<Rightarrow> t)"

definition matchsingleauthor :: "string \<Rightarrow> string \<Rightarrow> bool" where
  "matchsingleauthor ca ba \<longleftrightarrow> firsttoken ca \<in> set (re_split respa ba)"

definition resau :: rx where
  \<comment> \<open>\<open>\s*[\&\/]\s*| and \<close>\<close>
  "resau = Alt (Seqs [Star is_space, Cls (\<lambda>c. c = CHR ''&'' \<or> c = CHR ''/''), Star is_space])
               (Lit '' and '')"

fun matchauthor_loop :: "string list \<Rightarrow> string list \<Rightarrow> bool" where
  \<comment> \<open>lines 89 to 92\<close>
  "matchauthor_loop [] bas = True"
| "matchauthor_loop (ca # cas) bas =
     (if filter (matchsingleauthor ca) bas = [] then False else matchauthor_loop cas bas)"

definition matchauthor :: "env \<Rightarrow> string \<Rightarrow> string \<Rightarrow> string list \<Rightarrow> py_error + bool" where
  \<comment> \<open>\<open>bib.pauthor(a)[0]\<close> raises IndexError on an empty list\<close>
  "matchauthor E a fas extraauthors =
     (case pauthor E a of
        [] \<Rightarrow> Inl IndexError
      | r # _ \<Rightarrow>
          let a' = undiacritic E (lastname r);
              bas = remdups (map (\<lambda>x. undiacritic E (lastname x)) (pauthor E fas) @ extraauthors)
          in Inr (matchauthor_loop (re_split resau a') bas))"

definition unifyear :: "string \<Rightarrow> string" where
  "unifyear y = strip (replace (lower (replace y ''.'' [])) ''nd'' ''no date'')"

section \<open>srctok.py: the disambiguator\<close>

type_synonym entries = "string \<rightharpoonup> (string \<times> fields)"

definition get :: "fields \<Rightarrow> string \<Rightarrow> string \<Rightarrow> string" where
  \<comment> \<open>\<open>dict.get(key, default)\<close>\<close>
  "get f k d = (case f k of None \<Rightarrow> d | Some v \<Rightarrow> v)"

type_synonym prio = "int \<times> bool"

definition prio_of :: "env \<Rightarrow> entries \<Rightarrow> string \<Rightarrow> py_error + prio" where
  \<comment> \<open>lines 71 and 72: \<open>e[k]\<close> and \<open>bib.hhtype_to_n[z]\<close> raise KeyError on a missing key,
      \<open>max\<close> raises ValueError on an empty list\<close>
  "prio_of E e k =
     (case e k of
        None \<Rightarrow> Inl KeyError
      | Some (_, f) \<Rightarrow>
          (case those (map (hhtype_to_n E) (hhtype E f)) of
             None \<Rightarrow> Inl KeyError
           | Some [] \<Rightarrow> Inl ValueError
           | Some (n # ns) \<Rightarrow> Inr (foldl max n ns, lgcodestr E (get f ''inlg'' []) = [''eng''])))"

fun priok_dict :: "env \<Rightarrow> entries \<Rightarrow> string list \<Rightarrow> py_error + (string \<times> prio) list" where
  \<comment> \<open>the dict comprehension of \<open>priok\<close>, as the list of its items; a key met again
      keeps its place and gets the same value\<close>
  "priok_dict E e [] = Inr []"
| "priok_dict E e (k # ks) =
     (case prio_of E e k of
        Inl err \<Rightarrow> Inl err
      | Inr v \<Rightarrow>
          (case priok_dict E e ks of
             Inl err \<Rightarrow> Inl err
           | Inr d \<Rightarrow> Inr ((k, v) # filter (\<lambda>kv. fst kv \<noteq> k) d)))"

definition amax :: "(string \<times> prio) list \<Rightarrow> prio \<times> string" where
  \<comment> \<open>\<open>max((v, k) for (k, v) in d.items())\<close> of a non-empty dict\<close>
  "amax d = (case map (\<lambda>(k, v). (v, k)) d of x # xs \<Rightarrow> foldl max x xs)"

definition filterd :: "(string \<Rightarrow> bool) \<Rightarrow> (string \<times> prio) list \<Rightarrow> (string \<times> prio) list" where
  "filterd f d = filter (\<lambda>(k, v). f k) d"

definition allmax :: "(string \<times> prio) list \<Rightarrow> (string \<times> prio) list" where
  "allmax d =
     (if d = [] then []
      else (case amax d of (v, _) \<Rightarrow> filterd (\<lambda>k. map_of d k = Some v) d))"

definition priok :: "env \<Rightarrow> string list \<Rightarrow> entries \<Rightarrow> py_error + string list" where
  \<comment> \<open>the returned set, as the list of its elements\<close>
  "priok E ks e =
     (case priok_dict E e ks of Inl err \<Rightarrow> Inl err | Inr d \<Rightarrow> Inr (map fst (allmax d)))"

definition key_ok :: "env \<Rightarrow> ayp \<Rightarrow> entries \<Rightarrow> string \<Rightarrow> py_error + bool" where
  \<comment> \<open>the condition of lines 104 to 106, with Python's short-circuit \<open>and\<close>\<close>
  "key_ok E ayp e k =
     (case ayp of (a, y, p, word_from_title) \<Rightarrow>
        (case e k of
           None \<Rightarrow> Inl KeyError
         | Some (_, f) \<Rightarrow>
             if find (get f ''year'' []) y = None then Inr False
             else if truthy word_from_title
                   \<and> find (lower (get f ''title'' [])) (the_str word_from_title) = None
               then Inr False
             else matchauthor E a (get f ''author'' []) (iter_authors E k)))"

fun cand_filter :: "env \<Rightarrow> ayp \<Rightarrow> entries \<Rightarrow> string list \<Rightarrow> py_error + string list" where
  \<comment> \<open>the list comprehension of lines 103 to 106\<close>
  "cand_filter E ayp e [] = Inr []"
| "cand_filter E ayp e (k # ks) =
     (case key_ok E ayp e k of
        Inl err \<Rightarrow> Inl err
      | Inr ok \<Rightarrow>
          (case cand_filter E ayp e ks of
             Inl err \<Rightarrow> Inl err
           | Inr r \<Rightarrow> Inr (if ok then k # r else r)))"

definition iter_key_pages ::
  "env \<Rightarrow> string \<Rightarrow> ayp \<Rightarrow> entries \<Rightarrow> (string \<rightharpoonup> string list)
     \<Rightarrow> py_error + (string \<times> string option) list" where
  "iter_key_pages E lg ayp e lgks =
     (case ayp of (a, y, p, word_from_title) \<Rightarrow>
        (case lgks lg of
           None \<Rightarrow> Inr []
         | Some ks \<Rightarrow>
             (case cand_filter E ayp e ks of
                Inl err \<Rightarrow> Inl err
              | Inr cands \<Rightarrow>
                  (case priok E cands e of
                     Inl err \<Rightarrow> Inl err
                   | Inr res \<Rightarrow> Inr (map (\<lambda>k. (k, p)) res)))))"

section \<open>srctok.py: the resolver \<open>source_to_refs\<close>\<close>

datatype unres =
    Unres3 string string string  \<comment> \<open>\<open>(ay[0], ay[1], lgid)\<close>\<close>
  | Unres2 string string  \<comment> \<open>\<open>(src, lgid)\<close>\<close>

fun collect_refs ::
  "env \<Rightarrow> string \<Rightarrow> entries \<Rightarrow> (string \<rightharpoonup> string list) \<Rightarrow> ayp list
     \<Rightarrow> py_error + (string \<times> string option) list" where
  \<comment> \<open>\<open>ref for s in ays for ref in iter_key_pages(lgid, s, e, lgks)\<close>\<close>
  "collect_refs E lgid e lgks [] = Inr []"
| "collect_refs E lgid e lgks (s # ss) =
     (case iter_key_pages E lgid s e lgks of
        Inl err \<Rightarrow> Inl err
      | Inr r \<Rightarrow>
          (case collect_refs E lgid e lgks ss of
             Inl err \<Rightarrow> Inl err
           | Inr rs \<Rightarrow> Inr (r @ rs)))"

function groupby :: "(string \<times> string option) list \<Rightarrow> (string \<times> (string \<times> string option) list) list" where
  \<comment> \<open>\<open>itertools.groupby(refs, lambda r: r[0])\<close>, each group as a list\<close>
  "groupby [] = []"
| "groupby (r # rs) =
     (fst r, r # takeWhile (\<lambda>r'. fst r' = fst r) rs) # groupby (dropWhile (\<lambda>r'. fst r' = fst r) rs)"
  by pat_completeness auto
termination
  by (relation "measure length") (auto simp: length_dropWhile_le less_Suc_eq_le)

definition nfilter :: "string option list \<Rightarrow> string list" where
  \<comment> \<open>\<open>clldutils.misc.nfilter\<close>: the items that are true\<close>
  "nfilter ps = map the_str (filter truthy ps)"

definition marker_free :: "string \<Rightarrow> bool" where
  \<comment> \<open>the parenthesised condition of lines 122 to 133\<close>
  "marker_free src \<longleftrightarrow>
     find src ''p.c'' = None
     \<and> find src ''personal communication'' = None
     \<and> find src ''ieldnotes'' = None
     \<and> find src ''ield notes'' = None
     \<and> find src ''forth'' = None
     \<and> find src ''Forth'' = None
     \<and> find src ''ubmitted'' = None
     \<and> find src ''o appear'' = None
     \<and> find src ''in press'' = None
     \<and> find src ''in prep'' = None
     \<and> find src ''in prog'' = None
     \<and> \<not> startswith src ''http''"

definition source_to_refs ::
  "env \<Rightarrow> string \<Rightarrow> string \<Rightarrow> entries \<Rightarrow> (string \<rightharpoonup> string list) \<Rightarrow> unres set
     \<Rightarrow> py_error + ((string \<times> string list) list \<times> string option \<times> unres set)" where
  \<comment> \<open>the returned pair, and the accumulator \<open>unresolved\<close> after the call; the
      \<open>PAGEONLY\<close> line printed on line 121 is left out\<close>
  "source_to_refs E src lgid e lgks unresolved =
     (let ays = iter_ayps src None in
      case collect_refs E lgid e lgks ays of
        Inl err \<Rightarrow> Inl err
      | Inr raw \<Rightarrow>
          let refs = sort_key (\<lambda>r. (fst r, the_str (snd r))) (remdups raw);
              res = map (\<lambda>(k, rs). (k, nfilter (map snd rs))) (groupby refs)
          in if refs \<noteq> [] then Inr (res, None, unresolved)
             else if re_match repageonly src \<noteq> None then Inr (res, None, unresolved)
             else if \<not> marker_free src then Inr (res, Some src, unresolved)
             else if ays \<noteq> []
               then Inr (res, None,
                      unresolved \<union> set (map (\<lambda>(a, y, _). Unres3 a y lgid) ays))
             else Inr (res, None, unresolved \<union> {Unres2 src lgid}))"

section \<open>sheet.py: \<open>Sheet.valid_row\<close>\<close>

datatype level = ERROR | WARNING

text \<open>
  A call of \<open>log\<close>: the message and the keyword \<open>level\<close>, \<open>None\<close> where the call passes
  none (the \<open>log\<close> of \<open>Sheet.check\<close> then takes its default, \<open>'ERROR'\<close>).
\<close>

type_synonym logcall = "string \<times> level option"

definition feature_id_pattern :: rx where
  \<comment> \<open>\<open>GB[0-9]{3}|(GBDRS.+)|TE[0-9]+|TS[0-9]+$\<close>; the group is not read\<close>
  "feature_id_pattern =
     Alt (Seqs [Lit ''GB'', Cls is_digit, Cls is_digit, Cls is_digit])
    (Alt (Seqs [Lit ''GBDRS'', Plus (\<lambda>c. c \<noteq> CHR 0x0A)])
    (Alt (Seqs [Lit ''TE'', Plus is_digit])
         (Seqs [Lit ''TS'', Plus is_digit, Eos])))"

definition valid_row ::
  "(string \<rightharpoonup> string) \<Rightarrow> (string \<rightharpoonup> string list) \<Rightarrow> bool \<Rightarrow> string set
     \<Rightarrow> logcall list \<times> (py_error + bool)" where
  \<comment> \<open>\<open>api_features\<close> maps a feature id of \<open>api.features\<close> to its domain; \<open>log\<close> tells
      whether a \<open>log\<close> callback is given; \<open>features\<close> is \<open>features or set()\<close>. The result is
      the calls of \<open>log\<close> made, with the value returned or the KeyError of \<open>row[...]\<close>.\<close>
  "valid_row row api_features log features =
     (case row ''Feature_ID'' of
        None \<Rightarrow> ([], Inr False)
      | Some fid \<Rightarrow>
          if fid = [] then ([], Inr False)
          else
            let bad_id = (re_match feature_id_pattern fid = None);
                l1 = (if bad_id \<and> truthy (row ''Value'') \<and> log
                      then [(''invalid Feature_ID: '' @ fid, Some ERROR)] else []);
                res1 = (\<not> bad_id)
            in (case api_features fid of
                  None \<Rightarrow> (l1, Inr False)
                | Some domain \<Rightarrow>
                    let value = the_str (row ''Value'');
                        bad_value = (truthy (row ''Value'') \<and> value \<noteq> ''?'' \<and> value \<notin> set domain);
                        l2 = l1 @ (if bad_value \<and> log
                                   then [(''invalid value '' @ value, None)] else []);
                        res2 = (res1 \<and> truthy (row ''Value'') \<and> \<not> bad_value)
                    in (case row ''Value'' of
                          None \<Rightarrow> (l2, Inl KeyError)
                        | Some v \<Rightarrow>
                       (case row ''Source'' of
                          None \<Rightarrow> (l2, Inl KeyError)
                        | Some s \<Rightarrow>
                            let l3 = l2 @ (if v \<noteq> [] \<and> s = [] \<and> log
                                           then [(''value without source'', Some WARNING)] else []);
                                res3 = (res2 \<and> \<not> (v \<noteq> [] \<and> s = []));
                                l4 = l3 @ (if s \<noteq> [] \<and> v = [] \<and> log
                                           then [(''source given, but no value'', Some WARNING)]
                                           else []);
                                res4 = (res3 \<and> \<not> (s \<noteq> [] \<and> v = []))
                            in (case row ''Comment'' of
                                  None \<Rightarrow> (l4, Inl KeyError)
                                | Some c \<Rightarrow>
                                    let l5 = l4 @ (if c \<noteq> [] \<and> v = [] \<and> log
                                                   then [(''comment given, but no value'',
                                                          Some WARNING)]
                                                   else []);
                                        res5 = (res4 \<and> \<not> (c \<noteq> [] \<and> v = []));
                                        dup = (fid \<in> features);
                                        l6 = l5 @ (if dup \<and> log
                                                   then [(''duplicate value for feature '' @ fid,
                                                          Some ERROR)]
                                                   else [])
                                    in (l6, Inr (res5 \<and> \<not> dup)))))))"

section \<open>The tokenizer as the specification words it\<close>


section \<open>Measures on patterns, for the proofs\<close>

text \<open>The groups a pattern can set, and the least number of characters a match of it consumes.\<close>

fun grps :: "rx \<Rightarrow> grp set" where
  "grps (Seq r1 r2) = grps r1 \<union> grps r2"
| "grps (Alt r1 r2) = grps r1 \<union> grps r2"
| "grps (Opt r) = grps r"
| "grps (Grp g r) = insert g (grps r)"
| "grps _ = {}"


section \<open>The markers of lines 122 to 132, as a list\<close>

definition markers :: "string list" where
  "markers = [''p.c'', ''personal communication'', ''ieldnotes'', ''ield notes'', ''forth'',
     ''Forth'', ''ubmitted'', ''o appear'', ''in press'', ''in prep'', ''in prog'']"

section \<open>An environment for the examples\<close>

text \<open>
  Modelled from the spec: \<open>bib.pauthor\<close>, \<open>bib.hhtype\<close>, \<open>bib.hhtype_to_n\<close>,
  \<open>bib.lgcodestr\<close>, \<open>bib.iter_authors\<close> and \<open>slug\<close> are missing from the sources. The
  theorems below hold for every environment; the examples need one. The specification
  calls \<open>bib.pauthor\<close> the bibliography-name parser that yields zero or more last names,
  and takes \<open>"Smith, A. and Jones, B."\<close> to the last names Smith and Jones: here names
  are separated by \<open>" and "\<close>, and a last name is the text before the first comma. The
  type ranks follow the specification's example (grammar above dictionary above
  wordlist above squib), one semicolon-separated tag list per entry; the language codes
  are the semicolon-separated codes of the field; no co-author surnames are supplied;
  and the normalisation leaves a string without diacritics as it is.
\<close>

definition example_pauthor :: "string \<Rightarrow> author list" where
  \<comment> \<open>Modelled from the spec: \<open>bib.pauthor\<close> is missing; names separated by \<open>" and "\<close>,
      the last name before the first comma\<close>
  "example_pauthor s =
     map (\<lambda>n. \<lparr>lastname = takeWhile (\<lambda>c. c \<noteq> CHR '','') n\<rparr>)
       (filter (\<lambda>n. n \<noteq> []) (re_split (Lit '' and '') s))"

definition example_env :: env where
  \<comment> \<open>Modelled from the spec: the functions and the table of \<open>pygrambank.bib\<close> and
      \<open>slug\<close> are missing; see the text above\<close>
  "example_env = \<lparr>
     pauthor = example_pauthor,
     hhtype = (\<lambda>f. split_char (get f ''hhtype'' ''unknown'') CHR '';''),
     hhtype_to_n = [''grammar'' \<mapsto> 4, ''dictionary'' \<mapsto> 3, ''wordlist'' \<mapsto> 2, ''squib'' \<mapsto> 1,
                    ''unknown'' \<mapsto> 0],
     lgcodestr = (\<lambda>s. if s = [] then [] else split_char s CHR '';''),
     iter_authors = (\<lambda>k. []),
     slug = (\<lambda>s. s) \<rparr>"


section \<open>Properties of the matcher\<close>

lemma star_results_consume:
  "(b', r', c') \<in> set (star_results P b rest c) \<Longrightarrow> c' = c \<and> (\<exists>u. rest = u @ r' \<and> b' = rev u @ b)"
proof (induction rest arbitrary: b)
  case Nil
  then show ?case by simp
next
  case (Cons x xs)
  show ?case
  proof (cases "P x \<and> (b', r', c') \<in> set (star_results P (x # b) xs c)")
    case True
    with Cons.IH[of "x # b"] obtain u where "c' = c" "xs = u @ r'" "b' = rev u @ x # b" by blast
    then have "x # xs = (x # u) @ r' \<and> b' = rev (x # u) @ b" by simp
    with \<open>c' = c\<close> show ?thesis by blast
  next
    case False
    with Cons.prems have "(b', r', c') = (b, x # xs, c)" by (auto split: if_splits)
    then show ?thesis by simp
  qed
qed

lemma rmatch_Seq_iff:
  "res \<in> set (rmatch (Seq r1 r2) st) \<longleftrightarrow> (\<exists>m \<in> set (rmatch r1 st). res \<in> set (rmatch r2 m))"
  by auto


lemma rmatch_caps_other:
  "(b', r', c') \<in> set (rmatch r (b, rest, c)) \<Longrightarrow> g \<notin> grps r \<Longrightarrow> c' g = c g"
proof (induction r arbitrary: b rest c b' r' c')
  case (Star P)
  then show ?case using star_results_consume[of b' r' c' P b rest c] by auto
next
  case (Seq r1 r2)
  from Seq.prems obtain m where m: "m \<in> set (rmatch r1 (b, rest, c))"
    and res: "(b', r', c') \<in> set (rmatch r2 m)" by auto
  obtain b1 s1 c1 where m_eq: "m = (b1, s1, c1)" by (cases m)
  from Seq.IH(1)[of b1 s1 c1 b rest c] m m_eq Seq.prems(2) have "c1 g = c g" by simp
  moreover from Seq.IH(2)[of b' r' c' b1 s1 c1] res m_eq Seq.prems(2) have "c' g = c1 g" by simp
  ultimately show ?case by simp
next
  case (Grp h r)
  from Grp.prems obtain c0 where c0: "(b', r', c0) \<in> set (rmatch r (b, rest, c))"
    and c': "c' = c0(h := Some (take (length rest - length r') rest))" by auto
  from Grp.IH[OF c0] Grp.prems(2) c' show ?case by simp
qed (auto split: list.splits if_splits)


lemma search_from_mem:
  "search_from r b s = Some c \<Longrightarrow> \<exists>b0 s0 b' s'. (b', s', c) \<in> set (rmatch r (b0, s0, no_caps))"
proof (induction s arbitrary: b)
  case Nil
  then show ?case by (auto split: list.splits) (metis list.set_intros(1))
next
  case (Cons x xs)
  show ?case
  proof (cases "rmatch r (b, x # xs, no_caps)")
    case Nil
    with Cons.prems have "search_from r (x # b) xs = Some c" by simp
    from Cons.IH[OF this] show ?thesis .
  next
    case (Cons res ress)
    obtain b1 s1 c1 where "res = (b1, s1, c1)" by (cases res)
    with Cons Cons.prems have "c1 = c" by simp
    with Cons \<open>res = (b1, s1, c1)\<close> have "(b1, s1, c) \<in> set (rmatch r (b, x # xs, no_caps))" by simp
    then show ?thesis by blast
  qed
qed

lemma re_search_mem:
  "re_search r s = Some c \<Longrightarrow> \<exists>b0 s0 b' s'. (b', s', c) \<in> set (rmatch r (b0, s0, no_caps))"
  unfolding re_search_def by (rule search_from_mem)

lemma Seqs_Cons: "Seqs (r # rs) = Seq r (Seqs rs)"
  by (simp add: Seqs_def)

lemma Seqs_Nil: "Seqs [] = Eps"
  by (simp add: Seqs_def)

lemma refullsrc_year:
  assumes "res \<in> set (rmatch refullsrc st)"
  shows "snd (snd res) Gy = Some []"
proof -
  define tail where "tail = Seqs [Star is_space, pg, Opt (Lit '')'')]"
  have g: "Gy \<notin> grps tail"
    by (simp add: tail_def Seqs_def pg_def Lit_def Plus_def)
  from assms obtain m where "res \<in> set (rmatch (Seq (Grp Gy Eps) tail) m)"
    unfolding refullsrc_def tail_def Seqs_Cons rmatch_Seq_iff by blast
  then obtain m' where m': "m' \<in> set (rmatch (Grp Gy Eps) m)" and res: "res \<in> set (rmatch tail m')"
    unfolding rmatch_Seq_iff by blast
  obtain b s c where m: "m = (b, s, c)" by (cases m)
  from m' m have "m' = (b, s, c(Gy := Some []))" by simp
  moreover obtain b' s' c' where r: "res = (b', s', c')" by (cases res)
  ultimately have "c' Gy = (c(Gy := Some [])) Gy"
    using rmatch_caps_other[of b' s' c' tail b s "c(Gy := Some [])" Gy] res g by simp
  with r show ?thesis by simp
qed










section \<open>Properties of the tokenizer\<close>

lemma find_char_head:
  "ch \<noteq> c \<Longrightarrow> find (ch # u) [c] = Some i \<Longrightarrow> \<exists>j. i = Suc j"
  by (auto split: if_splits)

lemma replace_head:
  "ch \<noteq> c \<Longrightarrow> replace (ch # u) [c] new = ch # replace u [c] new"
  by simp

lemma take_find_char:
  "(case find a [c] of None \<Rightarrow> a | Some i \<Rightarrow> take i a) = takeWhile (\<lambda>x. x \<noteq> c) a"
  by (induction a) (auto split: option.splits)

lemma first_match_cases:
  "first_match x =
     (case re_search refullsrc x of Some m \<Rightarrow> Some (False, m)
      | None \<Rightarrow> (case re_search resrc x of Some m \<Rightarrow> Some (False, m)
      | None \<Rightarrow> map_option (Pair True) (re_search altrefullsrc x)))"
  by (simp add: first_match_def split: option.splits)

lemma body_of_segment_match:
  "iter_ayps_body x w =
     (case segment_match x of
        None \<Rightarrow> (None, w)
      | Some (a, y, p) \<Rightarrow>
          (Some (takeWhile (\<lambda>c. c \<noteq> CHR ''_'') a, y,
                 if truthy p then map_option strip p else p,
                 case find a ''_'' of None \<Rightarrow> w | Some i \<Rightarrow> Some (lower (drop (i + 1) a))),
           case find a ''_'' of None \<Rightarrow> w | Some i \<Rightarrow> Some (lower (drop (i + 1) a))))"
proof (cases "segment_match x")
  case None
  then show ?thesis by (simp add: iter_ayps_body_def)
next
  case (Some t)
  obtain a y p where t: "t = (a, y, p)" by (cases t)
  from take_find_char[of a "CHR ''_''"] show ?thesis
    by (simp add: iter_ayps_body_def Some t Let_def split: option.splits)
qed

lemma segment_match_refullsrc:
  "re_search refullsrc x = Some m \<Longrightarrow> segment_match x = Some (the_str (m Ga), the_str (m Gy), m Gp)"
  by (simp add: segment_match_def first_match_def groups_def)

lemma segment_match_resrc:
  "re_search refullsrc x = None \<Longrightarrow> re_search resrc x = Some m
   \<Longrightarrow> segment_match x = Some (the_str (m Ga), the_str (m Gy), m Gp)"
  by (simp add: segment_match_def first_match_def groups_def)

lemma segment_match_altrefullsrc:
  "re_search refullsrc x = None \<Longrightarrow> re_search resrc x = None \<Longrightarrow> re_search altrefullsrc x = Some m
   \<Longrightarrow> segment_match x = Some (replace (the_str (m Ga)) ''&'' '' and '', the_str (m Gy), m Gp)"
  by (simp add: segment_match_def first_match_def groups_def)

lemma segment_match_none:
  "re_search refullsrc x = None \<Longrightarrow> re_search resrc x = None \<Longrightarrow> re_search altrefullsrc x = None
   \<Longrightarrow> segment_match x = None"
  by (simp add: segment_match_def first_match_def)

lemma re_search_refullsrc_year: "re_search refullsrc x = Some m \<Longrightarrow> m Gy = Some []"
proof -
  assume "re_search refullsrc x = Some m"
  from re_search_mem[OF this] obtain b0 s0 b' s' where
    "(b', s', m) \<in> set (rmatch refullsrc (b0, s0, no_caps))" by blast
  from refullsrc_year[OF this] show ?thesis by simp
qed





lemma groups_SomeD:
  "map_option groups (re_search r x) = Some (a, y, p)
   \<Longrightarrow> \<exists>m. re_search r x = Some m \<and> m Ga = a \<and> m Gy = y \<and> m Gp = p"
  by (auto simp: groups_def)

lemma groups_NoneD: "map_option groups (re_search r x) = None \<Longrightarrow> re_search r x = None"
  by simp

lemma loop_append:
  "\<exists>w'. iter_ayps_loop (xs @ ys) w = iter_ayps_loop xs w @ iter_ayps_loop ys w'"
proof (induction xs arbitrary: w)
  case Nil
  then show ?case by auto
next
  case (Cons x xs)
  show ?case
  proof (cases "is_pc x")
    case True
    with Cons.IH[of w] show ?thesis by simp
  next
    case False
    obtain r w1 where body: "iter_ayps_body (strip x) w = (r, w1)"
      by (cases "iter_ayps_body (strip x) w")
    from Cons.IH[of w1] obtain w' where
      "iter_ayps_loop (xs @ ys) w1 = iter_ayps_loop xs w1 @ iter_ayps_loop ys w'" by blast
    with False body show ?thesis by (cases r) auto
  qed
qed

lemma loop_no_underscore:
  assumes "\<forall>x \<in> set mid. \<not> is_pc x \<longrightarrow>
     (\<forall>a y p. segment_match (strip x) = Some (a, y, p) \<longrightarrow> find a ''_'' = None)"
  shows "iter_ayps_loop (mid @ post) w = iter_ayps_loop mid w @ iter_ayps_loop post w
     \<and> (\<forall>f \<in> set (iter_ayps_loop mid w). title_hint f = w)"
  using assms
proof (induction mid)
  case Nil
  then show ?case by simp
next
  case (Cons x xs)
  from Cons.prems have rest: "\<forall>x \<in> set xs. \<not> is_pc x \<longrightarrow>
     (\<forall>a y p. segment_match (strip x) = Some (a, y, p) \<longrightarrow> find a ''_'' = None)" by simp
  note IH = Cons.IH[OF rest]
  show ?case
  proof (cases "is_pc x")
    case True
    with IH show ?thesis by simp
  next
    case False
    show ?thesis
    proof (cases "segment_match (strip x)")
      case None
      then have "iter_ayps_body (strip x) w = (None, w)" by (simp add: body_of_segment_match)
      with False IH show ?thesis by simp
    next
      case (Some t)
      obtain a y p where t: "t = (a, y, p)" by (cases t)
      with Some False Cons.prems have "find a ''_'' = None" by simp
      with Some t have "\<exists>f. iter_ayps_body (strip x) w = (Some f, w) \<and> title_hint f = w"
        by (simp add: body_of_segment_match title_hint_def)
      then obtain f where "iter_ayps_body (strip x) w = (Some f, w)" "title_hint f = w" by blast
      with False IH show ?thesis by simp
    qed
  qed
qed

section \<open>Properties of the resolver\<close>

lemma priok_Nil: "priok E [] e = Inr []"
  by (simp add: priok_def allmax_def)

lemma iter_key_pages_no_cands:
  "lgks lg = None \<or> lgks lg = Some [] \<Longrightarrow> iter_key_pages E lg ayp e lgks = Inr []"
  by (cases ayp) (auto simp: iter_key_pages_def priok_Nil)

lemma collect_refs_no_cands:
  "lgks lg = None \<or> lgks lg = Some [] \<Longrightarrow> collect_refs E lg e lgks ays = Inr []"
  by (induction ays) (simp_all add: iter_key_pages_no_cands)

lemma groupby_Nil_iff: "groupby xs = [] \<longleftrightarrow> xs = []"
  by (cases xs) simp_all

lemma sort_key_Nil_iff: "sort_key f xs = [] \<longleftrightarrow> xs = []"
  by (metis length_0_conv length_sort)

lemma marker_free_iff:
  "marker_free src \<longleftrightarrow> (\<forall>m \<in> set markers. find src m = None) \<and> \<not> startswith src ''http''"
  by (simp add: marker_free_def markers_def)

lemma source_to_refs_cases:
  assumes "source_to_refs E src lgid e lgks U = Inr (res, comment, U')"
  shows "(res \<noteq> [] \<and> comment = None \<and> U' = U)
    \<or> (res = [] \<and> re_match repageonly src \<noteq> None \<and> comment = None \<and> U' = U)
    \<or> (res = [] \<and> re_match repageonly src = None \<and> \<not> marker_free src
          \<and> comment = Some src \<and> U' = U)
    \<or> (res = [] \<and> re_match repageonly src = None \<and> marker_free src \<and> comment = None
          \<and> U' = U \<union> (if iter_ayps src None = [] then {Unres2 src lgid}
                 else (\<lambda>f. Unres3 (author_text f) (year_text f) lgid) ` set (iter_ayps src None)))"
proof -
  from assms obtain raw where raw: "collect_refs E lgid e lgks (iter_ayps src None) = Inr raw"
    by (auto simp: source_to_refs_def Let_def split: sum.splits)
  define refs where "refs = sort_key (\<lambda>r. (fst r, the_str (snd r))) (remdups raw)"
  have res: "res = map (\<lambda>(k, rs). (k, nfilter (map snd rs))) (groupby refs)"
    using assms raw by (auto simp: source_to_refs_def Let_def refs_def split: if_splits)
  then have res_iff: "res = [] \<longleftrightarrow> refs = []" by (simp add: groupby_Nil_iff)
  have img: "set (map (\<lambda>(a, y, _). Unres3 a y lgid) (iter_ayps src None))
    = (\<lambda>f. Unres3 (author_text f) (year_text f) lgid) ` set (iter_ayps src None)"
    by (simp add: author_text_def year_text_def split_def image_def)
  show ?thesis
  proof (cases "refs = []")
    case False
    with assms raw res_iff show ?thesis
      by (auto simp: source_to_refs_def Let_def refs_def)
  next
    case True
    with assms raw res_iff img show ?thesis
      by (auto simp: source_to_refs_def Let_def refs_def split: if_splits)
  qed
qed

lemma source_to_refs_no_cands:
  assumes "lgks lgid = None \<or> lgks lgid = Some []"
  shows "source_to_refs E src lgid e lgks U =
     Inr ([],
       if re_match repageonly src = None \<and> \<not> marker_free src then Some src else None,
       if re_match repageonly src = None \<and> marker_free src
       then U \<union> (if iter_ayps src None = [] then {Unres2 src lgid}
                  else (\<lambda>f. Unres3 (author_text f) (year_text f) lgid) ` set (iter_ayps src None))
       else U)"
proof -
  have img: "set (map (\<lambda>(a, y, _). Unres3 a y lgid) (iter_ayps src None))
    = (\<lambda>f. Unres3 (author_text f) (year_text f) lgid) ` set (iter_ayps src None)"
    by (simp add: author_text_def year_text_def split_def image_def)
  show ?thesis
    using collect_refs_no_cands[of lgks lgid E e "iter_ayps src None"] assms img
    by (simp add: source_to_refs_def Let_def)
qed

lemma bex_not_ball: "(\<exists>m \<in> S. f m \<noteq> None) = (\<not> (\<forall>m \<in> S. f m = None))"
  by simp

section \<open>Properties of the disambiguator\<close>

lemma find_iff_sublist: "find s sub \<noteq> None \<longleftrightarrow> sublist sub s"
  by (induction s) (auto simp: sublist_Cons_right)













section \<open>Properties of the author matcher\<close>




lemma is_pc_example: "is_pc ''pc, p.c. info''"
  by code_simp




text \<open>
  C4. On every segment on which the full-reference pattern \<open>refullsrc\<close> matches, the group
  \<open>y\<close> of the match is the empty string, and so is the year text of the fragment
  yielded for the segment: the group is empty in the pattern itself. The pattern matches
  whether a year is there (\<open>"Smith, John (1990)"\<close>) or not (\<open>"Smith, John ("\<close>).
\<close>

theorem refullsrc_year_text_empty:
  assumes "re_search refullsrc x = Some m"
  shows "m Gy = Some []
    \<and> (\<exists>f w'. iter_ayps_body x w = (Some f, w') \<and> year_text f = [])"
proof -
  from re_search_refullsrc_year[OF assms] have y: "m Gy = Some []" .
  from segment_match_refullsrc[OF assms] y
  have "segment_match x = Some (the_str (m Ga), [], m Gp)" by (simp add: the_str_def)
  then show ?thesis using y by (simp add: body_of_segment_match year_text_def)
qed

lemma refullsrc_ex1:
  "map_option groups (re_search refullsrc ''Smith, John (1990)'') = Some (Some ''Smith'', Some [], None)"
  by code_simp

lemma refullsrc_ex2:
  "map_option groups (re_search refullsrc ''Smith, John ('') = Some (Some ''Smith'', Some [], None)"
  by code_simp

theorem refullsrc_year_text_empty_witness:
  "re_search refullsrc ''Smith, John (1990)'' \<noteq> None
   \<and> (\<exists>f w'. iter_ayps_body ''Smith, John (1990)'' None = (Some f, w') \<and> year_text f = [])
   \<and> re_search refullsrc ''Smith, John ('' \<noteq> None"
proof -
  from refullsrc_ex1 obtain m where m: "re_search refullsrc ''Smith, John (1990)'' = Some m"
    by auto
  from refullsrc_ex2 have "re_search refullsrc ''Smith, John ('' \<noteq> None" by auto
  with refullsrc_year_text_empty[OF m, of None] m show ?thesis by simp
qed





text \<open>
  C7. For every segment the tokenizer tries the three patterns in the order
  full-reference, inline, condensed, and the fragment comes from the first that matches:
  from the full-reference match when there is one; otherwise from the inline match when
  there is one, whether or not the condensed pattern matches too; otherwise from the
  condensed match; and there is no fragment when none matches. The author text is the
  group \<open>a\<close> up to its first underscore, with \<open>&\<close> replaced by \<open>" and "\<close> in the
  condensed case only.
\<close>

theorem grammar_order:
  "(re_search refullsrc x = Some m \<longrightarrow>
      (\<exists>f w'. iter_ayps_body x w = (Some f, w')
         \<and> author_text f = takeWhile (\<lambda>c. c \<noteq> CHR ''_'') (the_str (m Ga))
         \<and> year_text f = the_str (m Gy)))
   \<and> (re_search refullsrc x = None \<and> re_search resrc x = Some m \<longrightarrow>
      (\<exists>f w'. iter_ayps_body x w = (Some f, w')
         \<and> author_text f = takeWhile (\<lambda>c. c \<noteq> CHR ''_'') (the_str (m Ga))
         \<and> year_text f = the_str (m Gy)))
   \<and> (re_search refullsrc x = None \<and> re_search resrc x = None
        \<and> re_search altrefullsrc x = Some m \<longrightarrow>
      (\<exists>f w'. iter_ayps_body x w = (Some f, w')
         \<and> author_text f
             = takeWhile (\<lambda>c. c \<noteq> CHR ''_'') (replace (the_str (m Ga)) ''&'' '' and '')
         \<and> year_text f = the_str (m Gy)))
   \<and> (re_search refullsrc x = None \<and> re_search resrc x = None
        \<and> re_search altrefullsrc x = None \<longrightarrow>
      iter_ayps_body x w = (None, w))"
  by (auto simp: body_of_segment_match author_text_def year_text_def
      dest: segment_match_refullsrc segment_match_resrc segment_match_altrefullsrc
        segment_match_none)

lemma order_ex1:
  "map_option groups (re_search refullsrc ''Smith, John 1990'') = Some (Some ''Smith'', Some [], None)"
  "map_option groups (re_search resrc ''Smith, John 1990'')
     = Some (Some ''Smith, John'', Some ''1990'', None)"
  by code_simp+

lemma order_ex2:
  "map_option groups (re_search refullsrc ''A&B 1990'') = None"
  "map_option groups (re_search resrc ''A&B 1990'') = Some (Some ''A&B'', Some ''1990'', None)"
  by code_simp+

lemma order_ex3:
  "map_option groups (re_search refullsrc ''Gwynn&Krishnamurti1985, p.144'') = None"
  "map_option groups (re_search resrc ''Gwynn&Krishnamurti1985, p.144'') = None"
  "map_option groups (re_search altrefullsrc ''Gwynn&Krishnamurti1985, p.144'')
     = Some (Some ''Gwynn&Krishnamurti'', Some ''1985'', Some ''144'')"
  by code_simp+

lemma order_ex4:
  "map_option groups (re_search refullsrc ''see above'') = None"
  "map_option groups (re_search resrc ''see above'') = None"
  "map_option groups (re_search altrefullsrc ''see above'') = None"
  by code_simp+

lemma order_ex_replace: "replace ''Gwynn&Krishnamurti'' ''&'' '' and '' = ''Gwynn and Krishnamurti''"
  by code_simp

theorem grammar_order_witness:
  "(\<exists>f w'. iter_ayps_body ''Smith, John 1990'' None = (Some f, w')
       \<and> author_text f = ''Smith'' \<and> year_text f = [])
   \<and> re_search resrc ''Smith, John 1990'' \<noteq> None
   \<and> (\<exists>f w'. iter_ayps_body ''A&B 1990'' None = (Some f, w')
       \<and> author_text f = ''A&B'' \<and> year_text f = ''1990'')
   \<and> (\<exists>f w'. iter_ayps_body ''Gwynn&Krishnamurti1985, p.144'' None = (Some f, w')
       \<and> author_text f = ''Gwynn and Krishnamurti'' \<and> year_text f = ''1985'')
   \<and> iter_ayps_body ''see above'' None = (None, None)"
proof -
  from groups_SomeD[OF order_ex1(1)] obtain m1 where
    m1: "re_search refullsrc ''Smith, John 1990'' = Some m1" "m1 Ga = Some ''Smith''" "m1 Gy = Some []"
    by blast
  from grammar_order[of "''Smith, John 1990''" m1 None] m1
  have c1: "\<exists>f w'. iter_ayps_body ''Smith, John 1990'' None = (Some f, w')
       \<and> author_text f = ''Smith'' \<and> year_text f = []"
    by (simp add: the_str_def)
  from groups_SomeD[OF order_ex1(2)] have c1': "re_search resrc ''Smith, John 1990'' \<noteq> None"
    by auto
  from groups_SomeD[OF order_ex2(2)] obtain m2 where
    m2: "re_search resrc ''A&B 1990'' = Some m2" "m2 Ga = Some ''A&B''" "m2 Gy = Some ''1990''"
    by blast
  from grammar_order[of "''A&B 1990''" m2 None] m2 groups_NoneD[OF order_ex2(1)]
  have c2: "\<exists>f w'. iter_ayps_body ''A&B 1990'' None = (Some f, w')
       \<and> author_text f = ''A&B'' \<and> year_text f = ''1990''"
    by (simp add: the_str_def)
  from groups_SomeD[OF order_ex3(3)] obtain m3 where
    m3: "re_search altrefullsrc ''Gwynn&Krishnamurti1985, p.144'' = Some m3"
      "m3 Ga = Some ''Gwynn&Krishnamurti''" "m3 Gy = Some ''1985''"
    by blast
  from grammar_order[of "''Gwynn&Krishnamurti1985, p.144''" m3 None] m3
    groups_NoneD[OF order_ex3(1)] groups_NoneD[OF order_ex3(2)]
  have "\<exists>f w'. iter_ayps_body ''Gwynn&Krishnamurti1985, p.144'' None = (Some f, w')
       \<and> author_text f = takeWhile (\<lambda>c. c \<noteq> CHR ''_'') (replace ''Gwynn&Krishnamurti'' ''&'' '' and '')
       \<and> year_text f = ''1985''"
    by (simp add: the_str_def)
  then have c3: "\<exists>f w'. iter_ayps_body ''Gwynn&Krishnamurti1985, p.144'' None = (Some f, w')
       \<and> author_text f = ''Gwynn and Krishnamurti'' \<and> year_text f = ''1985''"
    by (simp add: order_ex_replace)
  from grammar_order[of "''see above''" m1 None]
    groups_NoneD[OF order_ex4(1)] groups_NoneD[OF order_ex4(2)] groups_NoneD[OF order_ex4(3)]
  have c4: "iter_ayps_body ''see above'' None = (None, None)" by simp
  from c1 c1' c2 c3 c4 show ?thesis by blast
qed

text \<open>
  C10 (amended). Within one call of \<open>iter_ayps\<close>, when the author text of a segment that
  is not discarded contains an underscore, the title hint taken from it is the hint of
  the segment's own fragment and of every fragment of the segments that follow, up to
  the next segment whose author text contains an underscore; it is still the hint in
  force after them. Nothing resets the hint between segments: a segment that is
  discarded or does not parse leaves it as it is.
  As stated for every later fragment without an underscore the claim fails:
  in \<open>"Abe_x 1990; Bo_y 1991; Cy 1992"\<close> the third fragment has no underscore and
  carries the hint \<open>y\<close> of the second segment, not the hint \<open>x\<close> of the first.
\<close>

theorem title_hint_persists:
  assumes "segments s = pre @ x # mid @ post"
    and "\<not> is_pc x"
    and "segment_match (strip x) = Some (a, y, p)"
    and "find a ''_'' = Some i"
    and "\<forall>x' \<in> set mid. \<not> is_pc x' \<longrightarrow>
       (\<forall>a' y' p'. segment_match (strip x') = Some (a', y', p') \<longrightarrow> find a' ''_'' = None)"
  shows "\<exists>fs0 f fs. iter_ayps s w
           = fs0 @ f # fs @ iter_ayps_loop post (Some (lower (drop (i + 1) a)))
       \<and> fs = iter_ayps_loop mid (Some (lower (drop (i + 1) a)))
       \<and> author_text f = take i a
       \<and> title_hint f = Some (lower (drop (i + 1) a))
       \<and> (\<forall>f' \<in> set fs. title_hint f' = Some (lower (drop (i + 1) a)))"
proof -
  define h where "h = lower (drop (i + 1) a)"
  from loop_append[of pre "x # mid @ post" w] obtain w' where
    split: "iter_ayps_loop (pre @ x # mid @ post) w
      = iter_ayps_loop pre w @ iter_ayps_loop (x # mid @ post) w'" by blast
  have body: "iter_ayps_body (strip x) w'
    = (Some (take i a, y, if truthy p then map_option strip p else p, Some h), Some h)"
    using assms(3,4) by (simp add: iter_ayps_body_def h_def Let_def)
  from loop_no_underscore[OF assms(5), of post "Some h"]
  have mid: "iter_ayps_loop (mid @ post) (Some h)
      = iter_ayps_loop mid (Some h) @ iter_ayps_loop post (Some h)"
    and hints: "\<forall>f \<in> set (iter_ayps_loop mid (Some h)). title_hint f = Some h" by simp_all
  let ?f = "(take i a, y, if truthy p then map_option strip p else p, Some h)"
  from split body mid assms(1,2) have
    "iter_ayps s w = iter_ayps_loop pre w @ ?f # iter_ayps_loop mid (Some h)
        @ iter_ayps_loop post (Some h)"
    by (simp add: iter_ayps_def)
  moreover have "author_text ?f = take i a" "title_hint ?f = Some h"
    by (simp_all add: author_text_def title_hint_def)
  ultimately show ?thesis using hints unfolding h_def by blast
qed

lemma hint_ex_segments:
  "segments ''Abe_x 1990; see above; Cy 1992'' = [''Abe_x 1990'', '' see above'', '' Cy 1992'']"
  by code_simp

lemma hint_ex_matches:
  "segment_match (strip ''Abe_x 1990'') = Some (''Abe_x'', ''1990'', None)"
  "segment_match (strip '' see above'') = None"
  "segment_match (strip '' Cy 1992'') = Some (''Cy'', ''1992'', None)"
  by code_simp+

lemma hint_ex_pc: "\<not> is_pc ''Abe_x 1990''" "\<not> is_pc '' see above''" "\<not> is_pc '' Cy 1992''"
  by code_simp+

lemma hint_ex_find: "find ''Abe_x'' ''_'' = Some 3" "find ''Cy'' ''_'' = None"
  by code_simp+

lemma hint_ex_result:
  "iter_ayps_loop ['' see above'', '' Cy 1992''] (Some ''x'') = [(''Cy'', ''1992'', None, Some ''x'')]"
  "lower (drop (3 + 1) ''Abe_x'') = ''x''"
  by code_simp+

theorem title_hint_persists_witness:
  "segments ''Abe_x 1990; see above; Cy 1992'' = [] @ ''Abe_x 1990'' # ['' see above'', '' Cy 1992''] @ []
   \<and> (\<exists>fs0 f. iter_ayps ''Abe_x 1990; see above; Cy 1992'' None
          = fs0 @ f # [(''Cy'', ''1992'', None, Some ''x'')] @ []
        \<and> author_text f = ''Abe'' \<and> title_hint f = Some ''x'')"
proof -
  have seg: "segments ''Abe_x 1990; see above; Cy 1992''
      = [] @ ''Abe_x 1990'' # ['' see above'', '' Cy 1992''] @ []"
    by (simp add: hint_ex_segments)
  have mid: "\<forall>x' \<in> set ['' see above'', '' Cy 1992'']. \<not> is_pc x' \<longrightarrow>
       (\<forall>a' y' p'. segment_match (strip x') = Some (a', y', p') \<longrightarrow> find a' ''_'' = None)"
    using hint_ex_matches hint_ex_find by auto
  from title_hint_persists[OF seg hint_ex_pc(1) hint_ex_matches(1) hint_ex_find(1) mid, of None]
  obtain fs0 f fs where
    r: "iter_ayps ''Abe_x 1990; see above; Cy 1992'' None
          = fs0 @ f # fs @ iter_ayps_loop [] (Some (lower (drop (3 + 1) ''Abe_x'')))"
    and fs: "fs = iter_ayps_loop ['' see above'', '' Cy 1992''] (Some (lower (drop (3 + 1) ''Abe_x'')))"
    and f: "author_text f = take 3 ''Abe_x''" "title_hint f = Some (lower (drop (3 + 1) ''Abe_x''))"
    by blast
  from fs have fs': "fs = [(''Cy'', ''1992'', None, Some ''x'')]"
    by (simp only: hint_ex_result)
  from f have f': "author_text f = ''Abe''" "title_hint f = Some ''x''"
    by (simp_all only: hint_ex_result) simp
  from r fs' have "iter_ayps ''Abe_x 1990; see above; Cy 1992'' None
          = fs0 @ f # [(''Cy'', ''1992'', None, Some ''x'')] @ []"
    by simp
  with f' seg show ?thesis by blast
qed

theorem title_hint_overwritten_counterexample:
  "iter_ayps ''Abe_x 1990; Bo_y 1991; Cy 1992'' None
     = [(''Abe'', ''1990'', None, Some ''x''), (''Bo'', ''1991'', None, Some ''y''),
        (''Cy'', ''1992'', None, Some ''y'')]"
  by code_simp

text \<open>
  C1 (amended). For every source field for which \<open>source_to_refs\<close> returns no reference
  and that does not match the page-numbers-only pattern, the returned source comment
  is the whole source field if and only if the string contains one of the markers
  \<open>"p.c"\<close>, \<open>"personal communication"\<close>, \<open>"ieldnotes"\<close>, \<open>"ield notes"\<close>, \<open>"forth"\<close>,
  \<open>"Forth"\<close>, \<open>"ubmitted"\<close>, \<open>"o appear"\<close>, \<open>"in press"\<close>, \<open>"in prep"\<close>, \<open>"in prog"\<close> or
  starts with \<open>"http"\<close>, and the accumulator is then unchanged; otherwise the comment
  stays unset and the accumulator gains the fragments' (author text, year text,
  language code) triples, or the (source field, language code) pair when no fragment
  was extracted.
  The claim has the two cases the other way round: line 122 negates the whole
  condition, so \<open>"Jones, field notes 2005"\<close> (marker \<open>"ield notes"\<close>) becomes the comment
  and nothing is added to the accumulator, while \<open>"Jones 2005"\<close> (no marker) is added to
  it and the comment stays unset.
\<close>

theorem comment_iff_marker:
  assumes "source_to_refs E src lgid e lgks U = Inr ([], comment, U')"
    and "re_match repageonly src = None"
  shows "(comment = Some src \<longleftrightarrow>
            (\<exists>m \<in> set [''p.c'', ''personal communication'', ''ieldnotes'', ''ield notes'',
                ''forth'', ''Forth'', ''ubmitted'', ''o appear'', ''in press'', ''in prep'',
                ''in prog'']. find src m \<noteq> None) \<or> startswith src ''http'')
       \<and> (comment = None \<longleftrightarrow>
            (\<forall>m \<in> set [''p.c'', ''personal communication'', ''ieldnotes'', ''ield notes'',
                ''forth'', ''Forth'', ''ubmitted'', ''o appear'', ''in press'', ''in prep'',
                ''in prog'']. find src m = None) \<and> \<not> startswith src ''http'')
       \<and> (comment = Some src \<longrightarrow> U' = U)
       \<and> (comment = None \<longrightarrow>
            U' = U \<union> (if iter_ayps src None = [] then {Unres2 src lgid}
                 else (\<lambda>f. Unres3 (author_text f) (year_text f) lgid) ` set (iter_ayps src None)))"
proof -
  define P where "P = (\<forall>m \<in> set [''p.c'', ''personal communication'', ''ieldnotes'', ''ield notes'',
                ''forth'', ''Forth'', ''ubmitted'', ''o appear'', ''in press'', ''in prep'',
                ''in prog'']. find src m = None)"
  have ex: "(\<exists>m \<in> set [''p.c'', ''personal communication'', ''ieldnotes'', ''ield notes'',
                ''forth'', ''Forth'', ''ubmitted'', ''o appear'', ''in press'', ''in prep'',
                ''in prog'']. find src m \<noteq> None) = (\<not> P)"
    unfolding P_def by (rule bex_not_ball)
  have mf: "marker_free src \<longleftrightarrow> P \<and> \<not> startswith src ''http''"
    using marker_free_iff[of src] by (simp add: markers_def P_def)
  from source_to_refs_cases[OF assms(1)] assms(2)
  have "(\<not> marker_free src \<and> comment = Some src \<and> U' = U)
    \<or> (marker_free src \<and> comment = None
          \<and> U' = U \<union> (if iter_ayps src None = [] then {Unres2 src lgid}
                 else (\<lambda>f. Unres3 (author_text f) (year_text f) lgid) ` set (iter_ayps src None)))"
    by auto
  with mf have goal': "(comment = Some src \<longleftrightarrow> (\<not> P) \<or> startswith src ''http'')
       \<and> (comment = None \<longleftrightarrow> P \<and> \<not> startswith src ''http'')
       \<and> (comment = Some src \<longrightarrow> U' = U)
       \<and> (comment = None \<longrightarrow>
            U' = U \<union> (if iter_ayps src None = [] then {Unres2 src lgid}
                 else (\<lambda>f. Unres3 (author_text f) (year_text f) lgid) ` set (iter_ayps src None)))"
    by auto
  show ?thesis unfolding ex unfolding P_def[symmetric] by (rule goal')
qed

lemma c1_ex_page: "map_option groups (re_match repageonly ''Jones, field notes 2005'') = None"
  "map_option groups (re_match repageonly ''Jones 2005'') = None"
  by code_simp+

lemma c1_ex_marker: "\<not> marker_free ''Jones, field notes 2005''" "marker_free ''Jones 2005''"
  by code_simp+

lemma c1_ex_ays: "iter_ayps ''Jones 2005'' None = [(''Jones'', ''2005'', None, None)]"
  by code_simp

theorem comment_iff_marker_witness:
  "source_to_refs example_env ''Jones, field notes 2005'' ''fra'' Map.empty [''fra'' \<mapsto> []] {}
     = Inr ([], Some ''Jones, field notes 2005'', {})
   \<and> re_match repageonly ''Jones, field notes 2005'' = None
   \<and> ((\<exists>m \<in> set [''p.c'', ''personal communication'', ''ieldnotes'', ''ield notes'',
                ''forth'', ''Forth'', ''ubmitted'', ''o appear'', ''in press'', ''in prep'',
                ''in prog'']. find ''Jones, field notes 2005'' m \<noteq> None)
        \<or> startswith ''Jones, field notes 2005'' ''http'')
   \<and> source_to_refs example_env ''Jones 2005'' ''fra'' Map.empty [''fra'' \<mapsto> []] {}
     = Inr ([], None, {Unres3 ''Jones'' ''2005'' ''fra''})"
proof -
  have p1: "re_match repageonly ''Jones, field notes 2005'' = None"
    and p2: "re_match repageonly ''Jones 2005'' = None"
    using c1_ex_page by simp_all
  have r1: "source_to_refs example_env ''Jones, field notes 2005'' ''fra'' Map.empty [''fra'' \<mapsto> []] {}
     = Inr ([], Some ''Jones, field notes 2005'', {})"
    using p1 c1_ex_marker(1) by (simp add: source_to_refs_no_cands)
  have r2: "source_to_refs example_env ''Jones 2005'' ''fra'' Map.empty [''fra'' \<mapsto> []] {}
     = Inr ([], None, {Unres3 ''Jones'' ''2005'' ''fra''})"
    using p2 c1_ex_marker(2)
    by (simp add: source_to_refs_no_cands c1_ex_ays author_text_def year_text_def)
  from comment_iff_marker[OF r1 p1]
  have "(\<exists>m \<in> set [''p.c'', ''personal communication'', ''ieldnotes'', ''ield notes'',
                ''forth'', ''Forth'', ''ubmitted'', ''o appear'', ''in press'', ''in prep'',
                ''in prog'']. find ''Jones, field notes 2005'' m \<noteq> None)
        \<or> startswith ''Jones, field notes 2005'' ''http''"
    by (elim conjE) (erule iffD1, rule refl)
  with r1 p1 r2 show ?thesis by (intro conjI)
qed

theorem comment_set_despite_marker_counterexample:
  "source_to_refs example_env ''Jones, field notes 2005'' ''fra'' Map.empty [''fra'' \<mapsto> []] {}
     = Inr ([], Some ''Jones, field notes 2005'', {})
   \<and> find ''Jones, field notes 2005'' ''ield notes'' = Some 8
   \<and> source_to_refs example_env ''Jones 2005'' ''fra'' Map.empty [''fra'' \<mapsto> []] {}
     = Inr ([], None, {Unres3 ''Jones'' ''2005'' ''fra''})
   \<and> marker_free ''Jones 2005''"
proof -
  have p1: "re_match repageonly ''Jones, field notes 2005'' = None"
    and p2: "re_match repageonly ''Jones 2005'' = None"
    using c1_ex_page by simp_all
  have r1: "source_to_refs example_env ''Jones, field notes 2005'' ''fra'' Map.empty [''fra'' \<mapsto> []] {}
     = Inr ([], Some ''Jones, field notes 2005'', {})"
    using p1 c1_ex_marker(1) by (simp add: source_to_refs_no_cands)
  have r2: "source_to_refs example_env ''Jones 2005'' ''fra'' Map.empty [''fra'' \<mapsto> []] {}
     = Inr ([], None, {Unres3 ''Jones'' ''2005'' ''fra''})"
    using p2 c1_ex_marker(2)
    by (simp add: source_to_refs_no_cands c1_ex_ays author_text_def year_text_def)
  have f: "find ''Jones, field notes 2005'' ''ield notes'' = Some 8" by code_simp
  from r1 f r2 c1_ex_marker(2) show ?thesis by (intro conjI)
qed

text \<open>
  C2 (amended). For a language whose candidate key set is empty or absent and a fresh
  accumulator, \<open>source_to_refs\<close> returns without raising and with no reference, and for
  every source field that does not match the page-numbers-only pattern exactly one of
  the following holds: the source comment is set, or the accumulator is non-empty
  after the call. For a source field that matches the page-numbers-only pattern none
  of the three holds: no reference, no comment, nothing added. With any accumulator
  \<open>U\<close> the call returns the same with \<open>U\<close> joined to what it adds.
\<close>

theorem resolver_outcome_classes:
  assumes "lgks lgid = None \<or> lgks lgid = Some []"
  shows "\<exists>res comment U'. source_to_refs E src lgid e lgks {} = Inr (res, comment, U')
     \<and> res = []
     \<and> (re_match repageonly src \<noteq> None \<longrightarrow> comment = None \<and> U' = {})
     \<and> (re_match repageonly src = None \<longrightarrow>
           (comment \<noteq> None \<and> U' = {}) \<or> (comment = None \<and> U' \<noteq> {}))
     \<and> (\<forall>U. source_to_refs E src lgid e lgks U = Inr (res, comment, U \<union> U'))"
  using source_to_refs_no_cands[of lgks lgid E src e] assms by auto

lemma c2_ex_page: "map_option groups (re_match repageonly ''12-15'') \<noteq> None"
  by code_simp

theorem resolver_outcome_classes_witness:
  "source_to_refs example_env ''12-15'' ''fra'' Map.empty [''fra'' \<mapsto> []] {} = Inr ([], None, {})
   \<and> re_match repageonly ''12-15'' \<noteq> None
   \<and> (\<exists>res comment U'. source_to_refs example_env ''Jones 2005'' ''fra'' Map.empty [''fra'' \<mapsto> []] {}
         = Inr (res, comment, U') \<and> res = [] \<and> comment = None \<and> U' \<noteq> {})"
proof -
  have hyp: "[''fra'' \<mapsto> []] ''fra'' = None \<or> [''fra'' \<mapsto> ([]::string list)] ''fra'' = Some []"
    by simp
  have p0: "re_match repageonly ''12-15'' \<noteq> None" using c2_ex_page by auto
  have p2: "re_match repageonly ''Jones 2005'' = None" using c1_ex_page by simp
  from resolver_outcome_classes[where lgks = "[''fra'' \<mapsto> []]" and lgid = "''fra''"
      and E = example_env and src = "''12-15''" and e = Map.empty] hyp p0
  have a: "source_to_refs example_env ''12-15'' ''fra'' Map.empty [''fra'' \<mapsto> []] {} = Inr ([], None, {})"
    by auto
  from resolver_outcome_classes[where lgks = "[''fra'' \<mapsto> []]" and lgid = "''fra''"
      and E = example_env and src = "''Jones 2005''" and e = Map.empty] hyp p2
  obtain res comment U' where
    r: "source_to_refs example_env ''Jones 2005'' ''fra'' Map.empty [''fra'' \<mapsto> []] {} = Inr (res, comment, U')"
      "res = []" "(comment \<noteq> None \<and> U' = {}) \<or> (comment = None \<and> U' \<noteq> {})" by blast
  have "source_to_refs example_env ''Jones 2005'' ''fra'' Map.empty [''fra'' \<mapsto> []] {}
     = Inr ([], None, {Unres3 ''Jones'' ''2005'' ''fra''})"
    using p2 c1_ex_marker(2)
    by (simp add: source_to_refs_no_cands c1_ex_ays author_text_def year_text_def)
  with r have "comment = None \<and> U' \<noteq> {}" by auto
  with r a p0 show ?thesis by blast
qed

theorem page_only_no_outcome_counterexample:
  "source_to_refs example_env ''12-15'' ''fra'' Map.empty [''fra'' \<mapsto> []] {} = Inr ([], None, {})"
proof -
  have p0: "re_match repageonly ''12-15'' \<noteq> None" using c2_ex_page by auto
  then show ?thesis by (simp add: source_to_refs_no_cands)
qed













section \<open>Properties of \<open>Sheet.valid_row\<close>\<close>

text \<open>
  C9 (amended). For every sheet row whose \<open>Feature_ID\<close> is non-empty and among
  \<open>api.features\<close>, and that has a non-empty \<open>Value\<close> but an empty \<open>Source\<close>, \<open>valid_row\<close>
  called with a \<open>log\<close> callback reports \<open>'value without source'\<close> at level WARNING, not at
  level ERROR and not at the callback's default level, and does not return true; called
  without a callback it reports nothing.
  As stated for every row the claim fails: a row whose \<open>Feature_ID\<close> is not among
  \<open>api.features\<close> (line 138) or is empty (line 129) is left before line 147, and nothing
  is reported about its missing source.
\<close>

theorem value_without_source_warning:
  assumes "row ''Feature_ID'' = Some fid" and "fid \<noteq> []"
    and "api_features fid = Some domain"
    and "row ''Value'' = Some v" and "v \<noteq> []"
    and "row ''Source'' = Some []"
  shows "(''value without source'', Some WARNING) \<in> set (fst (valid_row row api_features True features))
    \<and> (''value without source'', Some ERROR) \<notin> set (fst (valid_row row api_features True features))
    \<and> (''value without source'', None) \<notin> set (fst (valid_row row api_features True features))
    \<and> snd (valid_row row api_features True features) \<noteq> Inr True
    \<and> fst (valid_row row api_features False features) = []"
  using assms
  by (auto simp: valid_row_def Let_def truthy_def the_str_def split: option.splits)

theorem value_without_source_warning_witness:
  "(''value without source'', Some WARNING)
     \<in> set (fst (valid_row
         [''Feature_ID'' \<mapsto> ''GB020'', ''Value'' \<mapsto> ''1'', ''Source'' \<mapsto> [], ''Comment'' \<mapsto> []]
         [''GB020'' \<mapsto> [''0'', ''1'']] True {}))
   \<and> valid_row [''Feature_ID'' \<mapsto> ''GB020'', ''Value'' \<mapsto> ''1'', ''Source'' \<mapsto> [], ''Comment'' \<mapsto> []]
      [''GB020'' \<mapsto> [''0'', ''1'']] True {}
     = ([(''value without source'', Some WARNING)], Inr False)"
proof -
  let ?row = "[''Feature_ID'' \<mapsto> ''GB020'', ''Value'' \<mapsto> ''1'', ''Source'' \<mapsto> [], ''Comment'' \<mapsto> []]"
  let ?api = "[''GB020'' \<mapsto> [''0'', ''1'']]"
  have m: "re_match feature_id_pattern ''GB020'' \<noteq> None"
    by (simp add: re_match_def feature_id_pattern_def Seqs_def Lit_def Plus_def is_digit_def code_def)
  have w: "(''value without source'', Some WARNING) \<in> set (fst (valid_row ?row ?api True {}))"
    using value_without_source_warning[of ?row "''GB020''" ?api "[''0'', ''1'']" "''1''" "{}"]
    by simp
  have r: "valid_row ?row ?api True {} = ([(''value without source'', Some WARNING)], Inr False)"
    using m by (simp add: valid_row_def Let_def truthy_def the_str_def)
  from w r show ?thesis by (rule conjI)
qed

lemma unknown_feature_id_matches: "re_match feature_id_pattern ''GB999'' \<noteq> None"
  by (simp add: re_match_def feature_id_pattern_def Seqs_def Lit_def Plus_def is_digit_def code_def)

theorem no_report_for_unknown_feature_counterexample:
  "valid_row [''Feature_ID'' \<mapsto> ''GB999'', ''Value'' \<mapsto> ''1'', ''Source'' \<mapsto> [], ''Comment'' \<mapsto> []]
      [''GB020'' \<mapsto> [''0'', ''1'']] True {} = ([], Inr False)"
  using unknown_feature_id_matches by (simp add: valid_row_def)

end
